theory Spec2Isabelle
  imports Complex_Main
begin

section \<open>Space Invaders: the game logic of frontend/src/game.ts\<close>

text \<open>
  The class \<^verbatim>\<open>SpaceInvadersGame\<close> keeps one mutable \<^verbatim>\<open>GameState\<close> object and a
  set of pressed keys.  Every method is modelled as a function from the state before
  the call to the state after it.

  JavaScript numbers are modelled as follows.  Coordinates and the sweep direction
  are rationals (\<^typ>\<open>rat\<close>): the grid starts at \<^verbatim>\<open>startX = 97.5\<close>, and all
  coordinates the game computes are obtained from half-integers by adding and
  subtracting integers, which IEEE doubles do exactly.  The counters
  \<^verbatim>\<open>score\<close>, \<^verbatim>\<open>lives\<close> and \<^verbatim>\<open>tick\<close> are integers (\<^typ>\<open>int\<close>);
  \<^verbatim>\<open>lives\<close> is decremented without a lower bound in the source, so it is not a
  natural number.

  The fields \<^verbatim>\<open>particles\<close> and \<^verbatim>\<open>stars\<close> of \<^verbatim>\<open>GameState\<close> are written by
  \<^verbatim>\<open>update\<close>, \<^verbatim>\<open>createExplosion\<close> and \<^verbatim>\<open>createInitialState\<close> and read only by
  \<^verbatim>\<open>render\<close>; no game rule reads them.  They are left out of the state, and so are
  the canvas context, the animation-frame handle and the callbacks
  \<^verbatim>\<open>onScoreChange\<close>, \<^verbatim>\<open>onLivesChange\<close>, \<^verbatim>\<open>onGameOver\<close>, which only report values
  to the page.  The value returned by \<^verbatim>\<open>Math.random()\<close> in \<^verbatim>\<open>enemyShoot\<close> is an
  explicit argument \<open>r\<close> of the model (a number with \<open>0 \<le> r < 1\<close>), and the time
  difference \<^verbatim>\<open>delta\<close> measured by \<^verbatim>\<open>gameLoop\<close> is an explicit argument too.
\<close>

subsection \<open>Game constants\<close>

definition CANVAS_WIDTH :: rat where [simp]: "CANVAS_WIDTH = 800"
definition CANVAS_HEIGHT :: rat where [simp]: "CANVAS_HEIGHT = 600"
definition SHIP_WIDTH :: rat where [simp]: "SHIP_WIDTH = 50"
definition SHIP_HEIGHT :: rat where [simp]: "SHIP_HEIGHT = 30"
definition INVADER_WIDTH :: rat where [simp]: "INVADER_WIDTH = 40"
definition INVADER_HEIGHT :: rat where [simp]: "INVADER_HEIGHT = 30"
definition INVADER_ROWS :: nat where [simp]: "INVADER_ROWS = 5"
definition INVADER_COLS :: nat where [simp]: "INVADER_COLS = 11"
definition INVADER_PADDING :: rat where [simp]: "INVADER_PADDING = 15"
definition BULLET_WIDTH :: rat where [simp]: "BULLET_WIDTH = 6"
definition BULLET_HEIGHT :: rat where [simp]: "BULLET_HEIGHT = 15"

text \<open>The private field \<^verbatim>\<open>tickInterval\<close> (milliseconds between two ticks).\<close>

definition tickInterval :: rat where [simp]: "tickInterval = 40"

subsection \<open>Game state interfaces\<close>

datatype invader_type = Squid | Crab | Octopus

record Ship =
  ship_x :: rat
  ship_y :: rat

record Invader =
  inv_x :: rat
  inv_y :: rat
  inv_type :: invader_type
  inv_active :: bool
  animFrame :: int

record Bullet =
  b_x :: rat
  b_y :: rat
  b_active :: bool
  isPlayer :: bool

record GameState =
  ship :: Ship
  invaders :: "Invader list"
  bullets :: "Bullet list"
  score :: int
  lives :: int
  gameOver :: bool
  won :: bool
  invaderDirection :: rat
  tick :: int

text \<open>The object itself: the game state and the set \<^verbatim>\<open>keys\<close> of pressed keys.\<close>

record SpaceInvadersGame =
  state :: GameState
  keys :: "string set"

subsection \<open>createInitialState\<close>

definition startX :: rat where
  "startX = (CANVAS_WIDTH - of_nat INVADER_COLS * (INVADER_WIDTH + INVADER_PADDING)) / 2"

definition rowType :: "nat \<Rightarrow> invader_type" where
  "rowType row = (if row = 0 then Squid else if row < 3 then Crab else Octopus)"

definition newInvader :: "nat \<Rightarrow> nat \<Rightarrow> Invader" where
  "newInvader row col =
     \<lparr> inv_x = startX + of_nat col * (INVADER_WIDTH + INVADER_PADDING),
       inv_y = 60 + of_nat row * (INVADER_HEIGHT + INVADER_PADDING),
       inv_type = rowType row,
       inv_active = True,
       animFrame = 0 \<rparr>"

text \<open>The two nested \<^verbatim>\<open>for\<close> loops push the invaders row by row.\<close>

definition invaderGrid :: "Invader list" where
  "invaderGrid =
     concat (map (\<lambda>row. map (\<lambda>col. newInvader row col) [0..<INVADER_COLS]) [0..<INVADER_ROWS])"

definition createInitialState :: GameState where
  "createInitialState =
     \<lparr> ship = \<lparr> ship_x = CANVAS_WIDTH / 2 - SHIP_WIDTH / 2,
                ship_y = CANVAS_HEIGHT - SHIP_HEIGHT - 20 \<rparr>,
       invaders = invaderGrid,
       bullets = [],
       score = 0,
       lives = 3,
       gameOver = False,
       won = False,
       invaderDirection = 1,
       tick = 0 \<rparr>"

subsection \<open>processInput and shoot\<close>

definition pressedLeft :: "string set \<Rightarrow> bool" where
  "pressedLeft ks = (''ArrowLeft'' \<in> ks \<or> ''a'' \<in> ks \<or> ''A'' \<in> ks)"

definition pressedRight :: "string set \<Rightarrow> bool" where
  "pressedRight ks = (''ArrowRight'' \<in> ks \<or> ''d'' \<in> ks \<or> ''D'' \<in> ks)"

definition setShipX :: "rat \<Rightarrow> GameState \<Rightarrow> GameState" where
  "setShipX v s = s\<lparr> ship := (ship s)\<lparr> ship_x := v \<rparr> \<rparr>"

definition processInput :: "string set \<Rightarrow> GameState \<Rightarrow> GameState" where
  "processInput ks s =
     (if gameOver s then s
      else
        let speed = 8;
            s1 = (if pressedLeft ks then setShipX (max 0 (ship_x (ship s) - speed)) s else s);
            s2 = (if pressedRight ks
                  then setShipX (min (CANVAS_WIDTH - SHIP_WIDTH) (ship_x (ship s1) + speed)) s1
                  else s1)
        in s2)"

definition playerBullets :: "GameState \<Rightarrow> Bullet list" where
  "playerBullets s = filter (\<lambda>b. isPlayer b \<and> b_active b) (bullets s)"

definition shoot :: "GameState \<Rightarrow> GameState" where
  "shoot s =
     (if length (playerBullets s) \<ge> 3 then s
      else s\<lparr> bullets := bullets s @
             [\<lparr> b_x = ship_x (ship s) + SHIP_WIDTH / 2 - BULLET_WIDTH / 2,
                b_y = ship_y (ship s) - BULLET_HEIGHT,
                b_active = True,
                isPlayer = True \<rparr>] \<rparr>)"

subsection \<open>checkCollisions\<close>

definition checkHit :: "rat \<Rightarrow> rat \<Rightarrow> rat \<Rightarrow> rat \<Rightarrow> rat \<Rightarrow> rat \<Rightarrow> rat \<Rightarrow> rat \<Rightarrow> bool" where
  "checkHit x1 y1 w1 h1 x2 y2 w2 h2 =
     (x1 < x2 + w2 \<and> x1 + w1 > x2 \<and> y1 < y2 + h2 \<and> y1 + h1 > y2)"

definition points :: "Invader \<Rightarrow> int" where
  "points i = (if inv_type i = Squid then 30 else if inv_type i = Crab then 20 else 10)"

definition hitsInvader :: "Bullet \<Rightarrow> Invader \<Rightarrow> bool" where
  "hitsInvader b i =
     checkHit (b_x b) (b_y b) BULLET_WIDTH BULLET_HEIGHT
              (inv_x i) (inv_y i) INVADER_WIDTH INVADER_HEIGHT"

text \<open>
  The inner \<^verbatim>\<open>forEach\<close> of the first loop: one bullet against the whole invader
  array, in array order.  The loop state is the bullet (its \<^verbatim>\<open>active\<close> flag is
  written), the invaders and the score.  An inactive invader is skipped; the bullet's
  own flag is not read inside this loop, and \<^verbatim>\<open>forEach\<close> cannot stop early.
\<close>

fun bulletVsInvaders :: "Bullet \<Rightarrow> Invader list \<Rightarrow> int \<Rightarrow> Bullet \<times> Invader list \<times> int" where
  "bulletVsInvaders b [] sc = (b, [], sc)"
| "bulletVsInvaders b (i # rest) sc =
     (if inv_active i \<and> hitsInvader b i
      then (case bulletVsInvaders (b\<lparr> b_active := False \<rparr>) rest (sc + points i) of
              (b', rest', sc') \<Rightarrow> (b', i\<lparr> inv_active := False \<rparr> # rest', sc'))
      else (case bulletVsInvaders b rest sc of
              (b', rest', sc') \<Rightarrow> (b', i # rest', sc')))"

text \<open>
  The outer \<^verbatim>\<open>forEach\<close> of the first loop: every bullet that is active and the
  player's is run against the invaders as the earlier bullets left them.
\<close>

fun playerBulletsVsInvaders ::
  "Bullet list \<Rightarrow> Invader list \<Rightarrow> int \<Rightarrow> Bullet list \<times> Invader list \<times> int" where
  "playerBulletsVsInvaders [] invs sc = ([], invs, sc)"
| "playerBulletsVsInvaders (b # bs) invs sc =
     (if b_active b \<and> isPlayer b
      then (case bulletVsInvaders b invs sc of
              (b1, invs1, sc1) \<Rightarrow>
                (case playerBulletsVsInvaders bs invs1 sc1 of
                   (bs', invs', sc') \<Rightarrow> (b1 # bs', invs', sc')))
      else (case playerBulletsVsInvaders bs invs sc of
              (bs', invs', sc') \<Rightarrow> (b # bs', invs', sc')))"

definition hitsShip :: "Bullet \<Rightarrow> Ship \<Rightarrow> bool" where
  "hitsShip b sh =
     checkHit (b_x b) (b_y b) BULLET_WIDTH BULLET_HEIGHT
              (ship_x sh) (ship_y sh) SHIP_WIDTH SHIP_HEIGHT"

text \<open>
  The second loop: every active enemy bullet against the ship.  The loop state is the
  pair of \<^verbatim>\<open>lives\<close> and \<^verbatim>\<open>gameOver\<close>; a hit decrements \<^verbatim>\<open>lives\<close> whatever its
  value is, and sets \<^verbatim>\<open>gameOver\<close> when the result is \<open>\<le> 0\<close>.
\<close>

fun enemyBulletsVsShip :: "Ship \<Rightarrow> Bullet list \<Rightarrow> int \<Rightarrow> bool \<Rightarrow> Bullet list \<times> int \<times> bool" where
  "enemyBulletsVsShip sh [] lv go = ([], lv, go)"
| "enemyBulletsVsShip sh (b # bs) lv go =
     (if b_active b \<and> \<not> isPlayer b \<and> hitsShip b sh
      then (case enemyBulletsVsShip sh bs (lv - 1) (if lv - 1 \<le> 0 then True else go) of
              (bs', lv', go') \<Rightarrow> (b\<lparr> b_active := False \<rparr> # bs', lv', go'))
      else (case enemyBulletsVsShip sh bs lv go of
              (bs', lv', go') \<Rightarrow> (b # bs', lv', go')))"

definition checkCollisions :: "GameState \<Rightarrow> GameState" where
  "checkCollisions s =
     (case playerBulletsVsInvaders (bullets s) (invaders s) (score s) of
        (bs1, invs1, sc1) \<Rightarrow>
          (case enemyBulletsVsShip (ship s) bs1 (lives s) (gameOver s) of
             (bs2, lv2, go2) \<Rightarrow>
               s\<lparr> bullets := bs2, invaders := invs1, score := sc1,
                  lives := lv2, gameOver := go2 \<rparr>))"

subsection \<open>moveInvaders and enemyShoot\<close>

definition tentativeX :: "GameState \<Rightarrow> Invader \<Rightarrow> rat" where
  "tentativeX s i = inv_x i + invaderDirection s * 15"

text \<open>First pass: the flag \<^verbatim>\<open>shouldDescend\<close>, set by any active invader at the wall.\<close>

definition shouldDescend :: "GameState \<Rightarrow> bool" where
  "shouldDescend s =
     list_ex (\<lambda>i. inv_active i \<and>
                (tentativeX s i \<le> 0 \<or> tentativeX s i \<ge> CANVAS_WIDTH - INVADER_WIDTH))
             (invaders s)"

definition moveInvader :: "GameState \<Rightarrow> bool \<Rightarrow> Invader \<Rightarrow> Invader" where
  "moveInvader s descend i =
     (if inv_active i
      then (if descend then i\<lparr> inv_y := inv_y i + 25 \<rparr>
            else i\<lparr> inv_x := inv_x i + invaderDirection s * 15 \<rparr>)
      else i)"

text \<open>
  Second pass: every active invader is moved, and \<^verbatim>\<open>gameOver\<close> is set when a moved
  active invader has reached \<^verbatim>\<open>ship.y - 30\<close>.  The direction is flipped after the pass.
\<close>

definition moveInvaders :: "GameState \<Rightarrow> GameState" where
  "moveInvaders s =
     (let descend = shouldDescend s;
          invs = map (moveInvader s descend) (invaders s);
          landed = list_ex (\<lambda>i. inv_active i \<and> inv_y i \<ge> ship_y (ship s) - 30) invs
      in s\<lparr> invaders := invs,
            gameOver := (if landed then True else gameOver s),
            invaderDirection := (if descend then invaderDirection s * (-1)
                                 else invaderDirection s) \<rparr>)"

text \<open>
  \<^verbatim>\<open>enemyShoot\<close>, with \<open>r\<close> the value of \<^verbatim>\<open>Math.random()\<close>.  For \<open>0 \<le> r < 1\<close> the
  index \<open>\<lfloor>r * n\<rfloor>\<close> is below the number \<open>n\<close> of active invaders.
\<close>

definition activeInvaders :: "GameState \<Rightarrow> Invader list" where
  "activeInvaders s = filter inv_active (invaders s)"

definition shooterIndex :: "rat \<Rightarrow> nat \<Rightarrow> nat" where
  "shooterIndex r n = nat \<lfloor>r * of_nat n\<rfloor>"

definition enemyBullet :: "Invader \<Rightarrow> Bullet" where
  "enemyBullet shooter =
     \<lparr> b_x = inv_x shooter + INVADER_WIDTH / 2 - BULLET_WIDTH / 2,
       b_y = inv_y shooter + INVADER_HEIGHT,
       b_active = True,
       isPlayer = False \<rparr>"

definition enemyShoot :: "rat \<Rightarrow> GameState \<Rightarrow> GameState" where
  "enemyShoot r s =
     (let act = activeInvaders s in
      if length act = 0 then s
      else let shooter = act ! shooterIndex r (length act)
           in s\<lparr> bullets := bullets s @ [enemyBullet shooter] \<rparr>)"

subsection \<open>update\<close>

definition moveBullet :: "Bullet \<Rightarrow> Bullet" where
  "moveBullet b =
     (if \<not> b_active b then b
      else let b1 = b\<lparr> b_y := b_y b + (if isPlayer b then - 12 else 6) \<rparr>
           in if b_y b1 < 0 \<or> b_y b1 > CANVAS_HEIGHT then b1\<lparr> b_active := False \<rparr> else b1)"

definition moveBullets :: "GameState \<Rightarrow> GameState" where
  "moveBullets s = s\<lparr> bullets := map moveBullet (bullets s) \<rparr>"

definition animateInvaders :: "GameState \<Rightarrow> GameState" where
  "animateInvaders s =
     s\<lparr> invaders := map (\<lambda>i. if inv_active i then i\<lparr> animFrame := (animFrame i + 1) mod 2 \<rparr>
                              else i) (invaders s) \<rparr>"

definition checkWin :: "GameState \<Rightarrow> GameState" where
  "checkWin s =
     (if length (activeInvaders s) = 0 then s\<lparr> gameOver := True, won := True \<rparr> else s)"

definition cleanUp :: "GameState \<Rightarrow> GameState" where
  "cleanUp s = s\<lparr> bullets := filter b_active (bullets s) \<rparr>"

text \<open>
  One tick.  The blocks of the method body are, in order: the early return, the tick
  counter, the bullets, the collisions, the invader sweep on every 25th tick, the
  animation frame on every 15th, the enemy fire on every 50th, the win test, and the
  removal of inactive bullets.
\<close>

definition update :: "rat \<Rightarrow> GameState \<Rightarrow> GameState" where
  "update r s =
     (if gameOver s then s
      else
        let s1 = s\<lparr> tick := tick s + 1 \<rparr>;
            s2 = moveBullets s1;
            s3 = checkCollisions s2;
            s4 = (if tick s3 mod 25 = 0 then moveInvaders s3 else s3);
            s5 = (if tick s4 mod 15 = 0 then animateInvaders s4 else s4);
            s6 = (if tick s5 mod 50 = 0 then enemyShoot r s5 else s5);
            s7 = checkWin s6
        in cleanUp s7)"

subsection \<open>The event handlers and the game loop\<close>

text \<open>
  \<^verbatim>\<open>bindControls\<close>: a key press is recorded, and the space bar shoots unless the game
  is over.  A key release is removed from the set.
\<close>

definition keydown :: "string \<Rightarrow> SpaceInvadersGame \<Rightarrow> SpaceInvadersGame" where
  "keydown k g =
     (let g1 = g\<lparr> keys := insert k (keys g) \<rparr> in
      if k = '' '' then (if \<not> gameOver (state g1) then g1\<lparr> state := shoot (state g1) \<rparr> else g1)
      else g1)"

definition keyup :: "string \<Rightarrow> SpaceInvadersGame \<Rightarrow> SpaceInvadersGame" where
  "keyup k g = g\<lparr> keys := keys g - {k} \<rparr>"

text \<open>
  One run of \<^verbatim>\<open>gameLoop\<close>: the input is processed on every animation frame, and a
  tick is made when \<^verbatim>\<open>delta\<close>, the time since the last tick, has reached
  \<^verbatim>\<open>tickInterval\<close>.
\<close>

definition gameLoop :: "rat \<Rightarrow> rat \<Rightarrow> SpaceInvadersGame \<Rightarrow> SpaceInvadersGame" where
  "gameLoop delta r g =
     (let g1 = g\<lparr> state := processInput (keys g) (state g) \<rparr> in
      if delta \<ge> tickInterval then g1\<lparr> state := update r (state g1) \<rparr> else g1)"

text \<open>
  \<^verbatim>\<open>start\<close> replaces the state by a fresh one and enters the game loop; the
  constructor builds the first state with no key pressed.
\<close>

definition start :: "rat \<Rightarrow> rat \<Rightarrow> SpaceInvadersGame \<Rightarrow> SpaceInvadersGame" where
  "start delta r g = gameLoop delta r (g\<lparr> state := createInitialState \<rparr>)"

definition newGame :: SpaceInvadersGame where
  "newGame = \<lparr> state = createInitialState, keys = {} \<rparr>"

text \<open>
  What can happen to a game object: a key goes down or up, an animation frame runs the
  game loop, or the page calls \<^verbatim>\<open>start\<close>.
\<close>

datatype event =
    KeyDown string
  | KeyUp string
  | Frame rat rat
  | Start rat rat

fun step :: "SpaceInvadersGame \<Rightarrow> event \<Rightarrow> SpaceInvadersGame" where
  "step g (KeyDown k) = keydown k g"
| "step g (KeyUp k) = keyup k g"
| "step g (Frame delta r) = gameLoop delta r g"
| "step g (Start delta r) = start delta r g"

definition run :: "event list \<Rightarrow> SpaceInvadersGame" where
  "run evs = foldl step newGame evs"

lemma run_Nil: "run [] = newGame"
  by (simp add: run_def)

lemma run_snoc: "run (evs @ [e]) = step (run evs) e"
  by (simp add: run_def)

section \<open>Frame lemmas: what a method leaves alone\<close>

lemma processInput_over: "gameOver s \<Longrightarrow> processInput ks s = s"
  by (simp add: processInput_def)

lemma update_over: "gameOver s \<Longrightarrow> update r s = s"
  by (simp add: update_def)

lemma keydown_over: "gameOver (state g) \<Longrightarrow> state (keydown k g) = state g"
  by (simp add: keydown_def Let_def)

lemma keyup_state: "state (keyup k g) = state g"
  by (simp add: keyup_def)

lemma gameLoop_over: "gameOver (state g) \<Longrightarrow> state (gameLoop delta r g) = state g"
  by (simp add: gameLoop_def Let_def processInput_over update_over)

section \<open>C5: a game that is over stays as it is\<close>

text \<open>A lost game, with the left arrow and the space bar held down.\<close>

definition lostGame :: SpaceInvadersGame where
  "lostGame = \<lparr> state = createInitialState\<lparr> lives := 0, gameOver := True, tick := 120 \<rparr>,
                keys = {''ArrowLeft'', '' ''} \<rparr>"

text \<open>
  Claim C5.  Once \<^verbatim>\<open>gameOver\<close> is true, every call other than \<^verbatim>\<open>start\<close> leaves the
  whole game state as it is: a tick (\<^verbatim>\<open>update\<close>) changes nothing, the input
  processing moves no ship whatever keys are held, the space bar spawns no bullet
  (the key handler does not call \<^verbatim>\<open>shoot\<close>), and a whole run of the game loop
  changes nothing.  Pressing and releasing keys changes the key set only.
\<close>

theorem C5_over_is_terminal:
  assumes "gameOver (state g)"
  shows "update r (state g) = state g
       \<and> processInput ks (state g) = state g
       \<and> state (keydown k g) = state g
       \<and> state (keyup k g) = state g
       \<and> state (gameLoop delta r g) = state g
       \<and> state (step g (KeyDown k)) = state g
       \<and> state (step g (KeyUp k)) = state g
       \<and> state (step g (Frame delta r)) = state g"
  using assms
  by (simp add: processInput_over update_over keydown_over keyup_state gameLoop_over)

theorem C5_over_is_terminal_witness:
  "gameOver (state lostGame)
   \<and> update (1/2) (state lostGame) = state lostGame
   \<and> processInput (keys lostGame) (state lostGame) = state lostGame
   \<and> state (keydown '' '' lostGame) = state lostGame
   \<and> state (gameLoop 40 (1/2) lostGame) = state lostGame
   \<and> ship_x (ship (state (gameLoop 40 (1/2) lostGame))) = 375
   \<and> bullets (state (keydown '' '' lostGame)) = []"
proof -
  have over: "gameOver (state lostGame)"
    by (simp add: lostGame_def)
  have init: "ship_x (ship (state lostGame)) = 375" "bullets (state lostGame) = []"
    by (simp_all add: lostGame_def createInitialState_def)
  from C5_over_is_terminal [OF over, of "1/2" "keys lostGame" "'' ''" 40] over init
  show ?thesis by simp
qed

section \<open>The collision loops, element by element\<close>

lemma hitsInvader_flags [simp]:
  "hitsInvader (b\<lparr> b_active := a \<rparr>) i = hitsInvader b i"
  "hitsInvader b (i\<lparr> inv_active := a' \<rparr>) = hitsInvader b i"
  by (simp_all add: hitsInvader_def)

definition struck :: "Bullet \<Rightarrow> Invader \<Rightarrow> bool" where
  "struck b i = (inv_active i \<and> hitsInvader b i)"

definition strike :: "Bullet \<Rightarrow> Invader \<Rightarrow> Invader" where
  "strike b i = (if struck b i then i\<lparr> inv_active := False \<rparr> else i)"

lemma struck_flag [simp]: "struck (b\<lparr> b_active := a \<rparr>) = struck b"
  by (simp add: struck_def fun_eq_iff)

lemma strike_flag [simp]: "strike (b\<lparr> b_active := a \<rparr>) = strike b"
  by (simp add: strike_def fun_eq_iff)

lemma bulletVsInvaders_eq:
  "bulletVsInvaders b invs sc =
     (if list_ex (struck b) invs then b\<lparr> b_active := False \<rparr> else b,
      map (strike b) invs,
      sc + sum_list (map points (filter (struck b) invs)))"
  by (induction invs arbitrary: b sc) (auto simp: struck_def strike_def)

text \<open>A bullet takes part in the first loop when it is active and the player's.\<close>

definition firing :: "Bullet \<Rightarrow> bool" where
  "firing b = (b_active b \<and> isPlayer b)"

definition shotDown :: "Bullet list \<Rightarrow> Invader \<Rightarrow> bool" where
  "shotDown bs i = (inv_active i \<and> list_ex (\<lambda>b. firing b \<and> hitsInvader b i) bs)"

definition shootDown :: "Bullet list \<Rightarrow> Invader \<Rightarrow> Invader" where
  "shootDown bs i = (if shotDown bs i then i\<lparr> inv_active := False \<rparr> else i)"

lemma shootDown_Cons:
  "shootDown (b # bs) i = (if firing b then shootDown bs (strike b i) else shootDown bs i)"
  by (auto simp: shootDown_def shotDown_def strike_def struck_def)

lemma points_flag [simp]: "points (i\<lparr> inv_active := a \<rparr>) = points i"
  by (simp add: points_def)

lemma shotDown_points_Cons:
  "(if shotDown (b # bs) i then points i else 0) =
     (if firing b
      then (if struck b i then points i else 0)
           + (if shotDown bs (strike b i) then points (strike b i) else 0)
      else (if shotDown bs i then points i else 0))"
  by (auto simp: shotDown_def strike_def struck_def)

lemma playerBulletsVsInvaders_invaders:
  "fst (snd (playerBulletsVsInvaders bs invs sc)) = map (shootDown bs) invs"
proof (induction bs arbitrary: invs sc)
  case Nil
  show ?case by (simp add: shootDown_def shotDown_def)
next
  case (Cons b bs)
  show ?case
  proof (cases "firing b")
    case True
    then have "b_active b \<and> isPlayer b" by (simp add: firing_def)
    then show ?thesis
      using Cons [of "map (strike b) invs"] True
      by (simp add: bulletVsInvaders_eq shootDown_Cons case_prod_beta)
  next
    case False
    then have "\<not> (b_active b \<and> isPlayer b)" by (simp add: firing_def)
    then show ?thesis
      using Cons [of invs sc] False
      by (auto simp: shootDown_Cons case_prod_beta)
  qed
qed

lemma playerBulletsVsInvaders_score:
  "snd (snd (playerBulletsVsInvaders bs invs sc)) =
     sc + sum_list (map points (filter (shotDown bs) invs))"
proof (induction bs arbitrary: invs sc)
  case Nil
  show ?case by (simp add: shotDown_def)
next
  case (Cons b bs)
  show ?case
  proof (cases "firing b")
    case True
    then have act: "b_active b \<and> isPlayer b" by (simp add: firing_def)
    have "snd (snd (playerBulletsVsInvaders (b # bs) invs sc)) =
            sc + sum_list (map points (filter (struck b) invs))
               + sum_list (map points (filter (shotDown bs) (map (strike b) invs)))"
      using act Cons [of "map (strike b) invs"]
      by (simp add: bulletVsInvaders_eq case_prod_beta)
    also have "\<dots> = sc + sum_list (map points (filter (shotDown (b # bs)) invs))"
      using True
      by (simp add: sum_list_map_filter' filter_map o_def shotDown_points_Cons
                    sum_list_addf)
    finally show ?thesis .
  next
    case False
    then have "\<not> (b_active b \<and> isPlayer b)" by (simp add: firing_def)
    moreover have "shotDown (b # bs) = shotDown bs"
      using False by (simp add: shotDown_def fun_eq_iff)
    ultimately show ?thesis
      using Cons [of invs sc]
      by (auto simp: case_prod_beta)
  qed
qed

text \<open>A bullet after a loop is the bullet before it, possibly switched off.\<close>

definition dimmed :: "Bullet \<Rightarrow> Bullet \<Rightarrow> bool" where
  "dimmed b b' = (b' = b \<or> b' = b\<lparr> b_active := False \<rparr>)"

lemma playerBulletsVsInvaders_bullets:
  "list_all2 dimmed bs (fst (playerBulletsVsInvaders bs invs sc))"
  by (induction bs arbitrary: invs sc)
     (auto simp: bulletVsInvaders_eq dimmed_def case_prod_beta)


lemma playerBulletsVsInvaders_enemy:
  "list_all2 (\<lambda>b b'. \<not> isPlayer b \<longrightarrow> b' = b) bs (fst (playerBulletsVsInvaders bs invs sc))"
  by (induction bs arbitrary: invs sc)
     (auto simp: bulletVsInvaders_eq case_prod_beta)

text \<open>An enemy bullet takes a life when it is active and overlaps the ship.\<close>

definition hitting :: "Ship \<Rightarrow> Bullet \<Rightarrow> bool" where
  "hitting sh b = (b_active b \<and> \<not> isPlayer b \<and> hitsShip b sh)"

definition absorb :: "Ship \<Rightarrow> Bullet \<Rightarrow> Bullet" where
  "absorb sh b = (if hitting sh b then b\<lparr> b_active := False \<rparr> else b)"

lemma enemyBulletsVsShip_eq:
  "enemyBulletsVsShip sh bs lv go =
     (map (absorb sh) bs,
      lv - int (length (filter (hitting sh) bs)),
      (filter (hitting sh) bs \<noteq> [] \<and> lv - int (length (filter (hitting sh) bs)) \<le> 0) \<or> go)"
proof (induction bs arbitrary: lv go)
  case Nil
  show ?case by simp
next
  case (Cons b bs)
  show ?case
  proof (cases "hitting sh b")
    case True
    then have "b_active b \<and> \<not> isPlayer b \<and> hitsShip b sh" by (simp add: hitting_def)
    with True show ?thesis
      by (cases "filter (hitting sh) bs = []") (auto simp: Cons absorb_def)
  next
    case False
    then have "\<not> (b_active b \<and> \<not> isPlayer b \<and> hitsShip b sh)" by (simp add: hitting_def)
    with False show ?thesis
      by (auto simp: Cons absorb_def)
  qed
qed

lemma hitting_after_first_loop:
  "filter (hitting sh) (fst (playerBulletsVsInvaders bs invs sc)) = filter (hitting sh) bs"
proof -
  have "list_all2 (\<lambda>b b'. \<not> isPlayer b \<longrightarrow> b' = b) bs bs' \<Longrightarrow> list_all2 dimmed bs bs'
        \<Longrightarrow> filter (hitting sh) bs' = filter (hitting sh) bs" for bs'
    by (induction bs bs' rule: list_all2_induct) (auto simp: hitting_def dimmed_def)
  then show ?thesis
    using playerBulletsVsInvaders_enemy playerBulletsVsInvaders_bullets by blast
qed

lemma dimmed_absorb: "dimmed b (absorb sh b)"
  by (simp add: dimmed_def absorb_def)

lemma dimmed_trans: "dimmed a b \<Longrightarrow> dimmed b c \<Longrightarrow> dimmed a c"
  by (auto simp: dimmed_def)

lemma list_all2_dimmed_trans:
  "list_all2 dimmed xs ys \<Longrightarrow> list_all2 dimmed ys zs \<Longrightarrow> list_all2 dimmed xs zs"
  using dimmed_trans by (rule list_all2_trans)

named_theorems phase \<open>what one block of update does to one field of the state\<close>

lemma checkCollisions_invaders [phase]:
  "invaders (checkCollisions s) = map (shootDown (bullets s)) (invaders s)"
  using playerBulletsVsInvaders_invaders [of "bullets s" "invaders s" "score s"]
  by (simp add: checkCollisions_def case_prod_beta enemyBulletsVsShip_eq)

lemma checkCollisions_score [phase]:
  "score (checkCollisions s) =
     score s + sum_list (map points (filter (shotDown (bullets s)) (invaders s)))"
  using playerBulletsVsInvaders_score [of "bullets s" "invaders s" "score s"]
  by (simp add: checkCollisions_def case_prod_beta enemyBulletsVsShip_eq)

lemma checkCollisions_lives [phase]:
  "lives (checkCollisions s) = lives s - int (length (filter (hitting (ship s)) (bullets s)))"
  by (simp add: checkCollisions_def case_prod_beta enemyBulletsVsShip_eq hitting_after_first_loop)

lemma checkCollisions_gameOver [phase]:
  "gameOver (checkCollisions s) =
     ((filter (hitting (ship s)) (bullets s) \<noteq> [] \<and> lives (checkCollisions s) \<le> 0) \<or> gameOver s)"
  by (simp add: checkCollisions_def case_prod_beta enemyBulletsVsShip_eq hitting_after_first_loop)

lemma checkCollisions_bullets:
  "list_all2 dimmed (bullets s) (bullets (checkCollisions s))"
proof -
  have "list_all2 dimmed bs (map (absorb sh) bs)" for sh bs
    by (simp add: list_all2_conv_all_nth dimmed_absorb)
  then show ?thesis
    using playerBulletsVsInvaders_bullets [of "bullets s" "invaders s" "score s"]
    by (auto simp: checkCollisions_def case_prod_beta enemyBulletsVsShip_eq
             intro: list_all2_dimmed_trans)
qed

lemma checkCollisions_frame [phase]:
  "ship (checkCollisions s) = ship s"
  "tick (checkCollisions s) = tick s"
  "won (checkCollisions s) = won s"
  "invaderDirection (checkCollisions s) = invaderDirection s"
  by (simp_all add: checkCollisions_def case_prod_beta)

lemma moveBullets_frame [phase]:
  "ship (moveBullets s) = ship s"
  "invaders (moveBullets s) = invaders s"
  "score (moveBullets s) = score s"
  "lives (moveBullets s) = lives s"
  "gameOver (moveBullets s) = gameOver s"
  "won (moveBullets s) = won s"
  "invaderDirection (moveBullets s) = invaderDirection s"
  "tick (moveBullets s) = tick s"
  "bullets (moveBullets s) = map moveBullet (bullets s)"
  by (simp_all add: moveBullets_def)

lemma moveInvaders_frame [phase]:
  "ship (moveInvaders s) = ship s"
  "bullets (moveInvaders s) = bullets s"
  "score (moveInvaders s) = score s"
  "lives (moveInvaders s) = lives s"
  "won (moveInvaders s) = won s"
  "tick (moveInvaders s) = tick s"
  "invaders (moveInvaders s) = map (moveInvader s (shouldDescend s)) (invaders s)"
  "invaderDirection (moveInvaders s) =
     (if shouldDescend s then - invaderDirection s else invaderDirection s)"
  by (simp_all add: moveInvaders_def Let_def)

lemma animateInvaders_frame [phase]:
  "ship (animateInvaders s) = ship s"
  "bullets (animateInvaders s) = bullets s"
  "score (animateInvaders s) = score s"
  "lives (animateInvaders s) = lives s"
  "gameOver (animateInvaders s) = gameOver s"
  "won (animateInvaders s) = won s"
  "invaderDirection (animateInvaders s) = invaderDirection s"
  "tick (animateInvaders s) = tick s"
  by (simp_all add: animateInvaders_def)

lemma enemyShoot_frame [phase]:
  "ship (enemyShoot r s) = ship s"
  "invaders (enemyShoot r s) = invaders s"
  "score (enemyShoot r s) = score s"
  "lives (enemyShoot r s) = lives s"
  "gameOver (enemyShoot r s) = gameOver s"
  "won (enemyShoot r s) = won s"
  "invaderDirection (enemyShoot r s) = invaderDirection s"
  "tick (enemyShoot r s) = tick s"
  by (simp_all add: enemyShoot_def Let_def)

lemma checkWin_frame [phase]:
  "ship (checkWin s) = ship s"
  "invaders (checkWin s) = invaders s"
  "bullets (checkWin s) = bullets s"
  "score (checkWin s) = score s"
  "lives (checkWin s) = lives s"
  "invaderDirection (checkWin s) = invaderDirection s"
  "tick (checkWin s) = tick s"
  by (simp_all add: checkWin_def)

lemma cleanUp_frame [phase]:
  "ship (cleanUp s) = ship s"
  "invaders (cleanUp s) = invaders s"
  "score (cleanUp s) = score s"
  "lives (cleanUp s) = lives s"
  "gameOver (cleanUp s) = gameOver s"
  "won (cleanUp s) = won s"
  "invaderDirection (cleanUp s) = invaderDirection s"
  "tick (cleanUp s) = tick s"
  "bullets (cleanUp s) = filter b_active (bullets s)"
  by (simp_all add: cleanUp_def)

lemma update_ship: "ship (update r s) = ship s"
  by (simp add: update_def Let_def phase)

lemma update_score:
  "score (update r s) =
     (if gameOver s then score s
      else score s + sum_list (map points (filter (shotDown (map moveBullet (bullets s))) (invaders s))))"
  by (simp add: update_def Let_def phase)

lemma update_lives:
  "lives (update r s) =
     (if gameOver s then lives s
      else lives s - int (length (filter (hitting (ship s)) (map moveBullet (bullets s)))))"
  by (simp add: update_def Let_def phase)

lemma update_tick: "tick (update r s) = (if gameOver s then tick s else tick s + 1)"
  by (simp add: update_def Let_def phase)

section \<open>C10: the score never decreases\<close>

text \<open>The invaders that were active before a tick and are inactive after it.\<close>

definition deactivated :: "Invader list \<Rightarrow> Invader list \<Rightarrow> Invader list" where
  "deactivated before after =
     map fst (filter (\<lambda>(i, i'). inv_active i \<and> \<not> inv_active i') (zip before after))"

lemma deactivated_map:
  "deactivated invs (map h invs) = filter (\<lambda>i. inv_active i \<and> \<not> inv_active (h i)) invs"
  by (induction invs) (simp_all add: deactivated_def)

lemma moveInvader_active [simp]: "inv_active (moveInvader s d i) = inv_active i"
  by (simp add: moveInvader_def)

lemma shootDown_active: "inv_active (shootDown bs i) = (inv_active i \<and> \<not> shotDown bs i)"
  by (auto simp: shootDown_def shotDown_def)

text \<open>The invaders after a tick: each one is an image of the invader at its index.\<close>

definition tickInvader :: "rat \<Rightarrow> GameState \<Rightarrow> Invader \<Rightarrow> Invader" where
  "tickInvader r s i =
     (let s3 = checkCollisions (moveBullets (s\<lparr> tick := tick s + 1 \<rparr>));
          s4 = (if tick s3 mod 25 = 0 then moveInvaders s3 else s3);
          i3 = shootDown (map moveBullet (bullets s)) i;
          i4 = (if tick s3 mod 25 = 0 then moveInvader s3 (shouldDescend s3) i3 else i3);
          i5 = (if tick s4 mod 15 = 0
                then (if inv_active i4 then i4\<lparr> animFrame := (animFrame i4 + 1) mod 2 \<rparr> else i4)
                else i4)
      in i5)"

lemma update_invaders:
  "\<not> gameOver s \<Longrightarrow> invaders (update r s) = map (tickInvader r s) (invaders s)"
  by (simp add: update_def Let_def phase tickInvader_def animateInvaders_def o_def)

lemma tickInvader_active:
  "inv_active (tickInvader r s i) = (inv_active i \<and> \<not> shotDown (map moveBullet (bullets s)) i)"
  by (simp add: tickInvader_def Let_def shootDown_active)

lemma points_values: "points i \<in> {10, 20, 30}"
  by (simp add: points_def)

lemma points_nonneg: "0 \<le> sum_list (map points invs)"
  by (induction invs) (simp_all add: points_def)

text \<open>
  Claim C10.  The score never decreases: the input processing and \<^verbatim>\<open>shoot\<close> leave it
  alone, and a tick adds to it exactly the points of the invaders the tick
  deactivated, one term for each of them.  Each term is 10, 20 or 30, and each of
  these invaders was active and overlapped by an active player bullet (at the
  bullet's position after its move in this tick).  This holds in every state.
\<close>

theorem C10_score_monotone:
  "score (processInput ks s) = score s
   \<and> score (shoot s) = score s
   \<and> score (update r s) =
       score s + sum_list (map points (deactivated (invaders s) (invaders (update r s))))
   \<and> score s \<le> score (update r s)
   \<and> list_all (\<lambda>i. points i = 10 \<or> points i = 20 \<or> points i = 30)
        (deactivated (invaders s) (invaders (update r s)))
   \<and> list_all (\<lambda>i. inv_active i \<and>
                 list_ex (\<lambda>b. b_active b \<and> isPlayer b \<and> hitsInvader b i) (map moveBullet (bullets s)))
        (deactivated (invaders s) (invaders (update r s)))"
proof -
  have a: "score (processInput ks s) = score s"
    by (simp add: processInput_def Let_def setShipX_def)
  have b: "score (shoot s) = score s"
    by (simp add: shoot_def)
  have d: "deactivated (invaders s) (invaders (update r s)) =
             (if gameOver s then [] else filter (shotDown (map moveBullet (bullets s))) (invaders s))"
  proof (cases "gameOver s")
    case True
    have "deactivated invs invs = []" for invs
      using deactivated_map [of invs "\<lambda>i. i"] by simp
    with True show ?thesis by (simp add: update_over)
  next
    case False
    have "(\<lambda>i. inv_active i \<and> \<not> inv_active (tickInvader r s i)) = shotDown (map moveBullet (bullets s))"
      by (auto simp: tickInvader_active fun_eq_iff shotDown_def)
    with False show ?thesis
      by (simp add: update_invaders deactivated_map)
  qed
  have c: "score (update r s) =
       score s + sum_list (map points (deactivated (invaders s) (invaders (update r s))))"
    by (simp add: d update_score)
  have e: "score s \<le> score (update r s)"
    using points_nonneg [of "deactivated (invaders s) (invaders (update r s))"] c by simp
  have f: "list_all (\<lambda>i. points i = 10 \<or> points i = 20 \<or> points i = 30) invs" for invs
    by (simp add: list_all_iff points_def)
  have g: "list_all (\<lambda>i. inv_active i \<and>
                 list_ex (\<lambda>b. b_active b \<and> isPlayer b \<and> hitsInvader b i) (map moveBullet (bullets s)))
        (deactivated (invaders s) (invaders (update r s)))"
    by (simp add: d list_all_iff shotDown_def firing_def)
  from a b c e f g show ?thesis by blast
qed


text \<open>
  The initial grid with one player bullet in the column of the ship, one move below
  the bottom row of invaders.
\<close>

definition volley :: GameState where
  "volley = createInitialState
     \<lparr> bullets := [\<lparr> b_x = 397, b_y = 271, b_active = True, isPlayer = True \<rparr>],
       tick := 23 \<rparr>"

theorem C10_score_monotone_witness:
  "score (update 0 volley) = 10
   \<and> deactivated (invaders volley) (invaders (update 0 volley)) = [newInvader 4 5]
   \<and> points (newInvader 4 5) = 10
   \<and> score volley \<le> score (update 0 volley)"
proof -
  have "deactivated (invaders volley) (invaders (update 0 volley)) = [newInvader 4 5]"
    by code_simp
  moreover have "points (newInvader 4 5) = 10" "score volley = 0"
    by code_simp+
  ultimately show ?thesis
    using C10_score_monotone [of "{}" volley 0] by simp
qed

section \<open>C2: the ship stays in the field\<close>

definition inField :: "GameState \<Rightarrow> bool" where
  "inField s = (0 \<le> ship_x (ship s) \<and> ship_x (ship s) \<le> CANVAS_WIDTH - SHIP_WIDTH)"

lemma shoot_ship: "ship (shoot s) = ship s"
  by (simp add: shoot_def)

lemma processInput_ship_x:
  "ship_x (ship (processInput ks s)) =
     (if gameOver s then ship_x (ship s)
      else let x1 = (if pressedLeft ks then max 0 (ship_x (ship s) - 8) else ship_x (ship s))
           in if pressedRight ks then min 750 (x1 + 8) else x1)"
  by (simp add: processInput_def Let_def setShipX_def)

lemma processInput_inField: "inField s \<Longrightarrow> inField (processInput ks s)"
  by (auto simp: inField_def processInput_ship_x Let_def)

lemma inputs_inField: "inField s \<Longrightarrow> inField (foldl (\<lambda>s ks. processInput ks s) s kss)"
  by (induction kss arbitrary: s) (simp_all add: processInput_inField)

lemma step_inField: "inField (state g) \<Longrightarrow> inField (state (step g e))"
proof (cases e)
  case (KeyDown k)
  assume "inField (state g)"
  then show ?thesis
    by (simp add: KeyDown keydown_def Let_def inField_def shoot_ship)
next
  case (KeyUp k)
  assume "inField (state g)"
  then show ?thesis by (simp add: KeyUp keyup_def)
next
  case (Frame delta r)
  assume "inField (state g)"
  then have "inField (processInput (keys g) (state g))"
    by (rule processInput_inField)
  then show ?thesis
    by (simp add: Frame gameLoop_def Let_def inField_def update_ship)
next
  case (Start delta r)
  have "inField createInitialState"
    by (simp add: inField_def createInitialState_def)
  then have "inField (processInput (keys g) createInitialState)"
    by (rule processInput_inField)
  then show ?thesis
    by (simp add: Start start_def gameLoop_def Let_def inField_def update_ship)
qed

lemma run_inField: "inField (state (run evs))"
proof (induction evs rule: rev_induct)
  case Nil
  show ?case by (simp add: run_Nil newGame_def inField_def createInitialState_def)
next
  case (snoc e evs)
  then show ?case by (simp add: run_snoc step_inField)
qed

text \<open>
  Claim C2.  After every sequence of events (keys going down and up in any order and
  number, animation frames with or without a tick, restarts) the ship's x coordinate
  lies in \<open>[0, CANVAS_WIDTH - SHIP_WIDTH]\<close>.  The same holds for every sequence of
  \<^verbatim>\<open>processInput\<close> calls with arbitrary key sets from any state whose ship is in
  the field.  A move to the left past 0 ends at 0 and a move to the right past
  \<open>CANVAS_WIDTH - SHIP_WIDTH\<close> ends there: \<^verbatim>\<open>processInput\<close> is total and has no
  error case.
\<close>

theorem C2_ship_stays_in_field:
  "0 \<le> ship_x (ship (state (run evs)))
   \<and> ship_x (ship (state (run evs))) \<le> CANVAS_WIDTH - SHIP_WIDTH
   \<and> (inField s \<longrightarrow> inField (foldl (\<lambda>s ks. processInput ks s) s kss))
   \<and> (\<not> gameOver s \<and> pressedLeft ks \<and> \<not> pressedRight ks \<longrightarrow>
        ship_x (ship (processInput ks s)) = max 0 (ship_x (ship s) - 8))
   \<and> (\<not> gameOver s \<and> pressedRight ks \<and> \<not> pressedLeft ks \<longrightarrow>
        ship_x (ship (processInput ks s)) = min (CANVAS_WIDTH - SHIP_WIDTH) (ship_x (ship s) + 8))"
  using run_inField [of evs] inputs_inField [of s kss]
  by (simp add: inField_def processInput_ship_x)

theorem C2_ship_stays_in_field_witness:
  "inField createInitialState
   \<and> inField (foldl (\<lambda>s ks. processInput ks s) createInitialState (replicate 100 {''ArrowRight''}))
   \<and> ship_x (ship (foldl (\<lambda>s ks. processInput ks s) createInitialState
                       (replicate 100 {''ArrowRight''}))) = 750
   \<and> ship_x (ship (foldl (\<lambda>s ks. processInput ks s) createInitialState
                       (replicate 100 {''a''}))) = 0
   \<and> ship_x (ship (processInput {''ArrowLeft''} (setShipX 5 createInitialState))) = 0"
proof -
  have a: "inField createInitialState" by code_simp
  have b: "ship_x (ship (foldl (\<lambda>s ks. processInput ks s) createInitialState
                       (replicate 100 {''ArrowRight''}))) = 750" by code_simp
  have c: "ship_x (ship (foldl (\<lambda>s ks. processInput ks s) createInitialState
                       (replicate 100 {''a''}))) = 0" by code_simp
  have d: "\<not> gameOver (setShipX 5 createInitialState) \<and> pressedLeft {''ArrowLeft''}
           \<and> \<not> pressedRight {''ArrowLeft''}" by code_simp
  have e: "ship_x (ship (setShipX 5 createInitialState)) = 5" by code_simp
  from a b c d e
    C2_ship_stays_in_field [of "[]" createInitialState "replicate 100 {''ArrowRight''}"
                               "{''ArrowLeft''}"]
    C2_ship_stays_in_field [of "[]" "setShipX 5 createInitialState" "[]" "{''ArrowLeft''}"]
  show ?thesis by simp
qed

section \<open>C3: at most three player bullets\<close>

text \<open>A bullet may lose its \<^verbatim>\<open>active\<close> flag, and never changes sides.\<close>

definition fades :: "Bullet \<Rightarrow> Bullet \<Rightarrow> bool" where
  "fades b b' = (isPlayer b' = isPlayer b \<and> (b_active b' \<longrightarrow> b_active b))"

lemma fades_count:
  "list_all2 fades bs bs' \<Longrightarrow>
     length (filter (\<lambda>b. isPlayer b \<and> b_active b) bs')
       \<le> length (filter (\<lambda>b. isPlayer b \<and> b_active b) bs)"
  by (induction bs bs' rule: list_all2_induct) (auto simp: fades_def)

lemma fades_moveBullet: "fades b (moveBullet b)"
  by (simp add: fades_def moveBullet_def Let_def)

lemma fades_dimmed: "dimmed b b' \<Longrightarrow> fades b b'"
  by (auto simp: fades_def dimmed_def)

lemma checkCollisions_count:
  "length (playerBullets (checkCollisions s)) \<le> length (playerBullets s)"
proof -
  have "list_all2 fades (bullets s) (bullets (checkCollisions s))"
    using checkCollisions_bullets [of s] fades_dimmed
    by (rule list_all2_mono)
  then show ?thesis
    unfolding playerBullets_def by (rule fades_count)
qed

lemma moveBullets_count:
  "length (playerBullets (moveBullets s)) \<le> length (playerBullets s)"
proof -
  have "list_all2 fades (bullets s) (map moveBullet (bullets s))"
    by (simp add: list_all2_conv_all_nth fades_moveBullet)
  then show ?thesis
    unfolding playerBullets_def moveBullets_def
    using fades_count by fastforce
qed

lemma playerBullets_frame [simp]:
  "playerBullets (s\<lparr> tick := t \<rparr>) = playerBullets s"
  "playerBullets (moveInvaders s) = playerBullets s"
  "playerBullets (animateInvaders s) = playerBullets s"
  "playerBullets (enemyShoot r s) = playerBullets s"
  "playerBullets (checkWin s) = playerBullets s"
  "playerBullets (cleanUp s) = playerBullets s"
  by (auto simp: playerBullets_def phase enemyShoot_def Let_def enemyBullet_def
                 intro: filter_cong)

lemma update_count: "length (playerBullets (update r s)) \<le> length (playerBullets s)"
proof (cases "gameOver s")
  case True
  then show ?thesis by (simp add: update_over)
next
  case False
  have "length (playerBullets (checkCollisions (moveBullets (s\<lparr> tick := tick s + 1 \<rparr>))))
          \<le> length (playerBullets s)"
    using checkCollisions_count [of "moveBullets (s\<lparr> tick := tick s + 1 \<rparr>)"]
          moveBullets_count [of "s\<lparr> tick := tick s + 1 \<rparr>"]
    by simp
  with False show ?thesis
    by (simp add: update_def Let_def)
qed

lemma shoot_full: "3 \<le> length (playerBullets s) \<Longrightarrow> shoot s = s"
  by (simp add: shoot_def)

lemma shoot_count:
  "length (playerBullets (shoot s)) =
     (if 3 \<le> length (playerBullets s) then length (playerBullets s)
      else length (playerBullets s) + 1)"
  by (simp add: shoot_def playerBullets_def)

lemma shoots_count:
  "length (playerBullets s) \<le> 3 \<Longrightarrow>
     length (playerBullets ((shoot ^^ n) s)) = min 3 (length (playerBullets s) + n)"
  by (induction n) (auto simp: shoot_count)

lemma processInput_bullets: "bullets (processInput ks s) = bullets s"
  by (simp add: processInput_def Let_def setShipX_def)

lemma processInput_count [simp]: "playerBullets (processInput ks s) = playerBullets s"
  by (simp add: playerBullets_def processInput_bullets)

lemma step_count:
  assumes "length (playerBullets (state g)) \<le> 3"
  shows "length (playerBullets (state (step g e))) \<le> 3"
proof (cases e)
  case (KeyDown k)
  with assms show ?thesis
    by (simp add: keydown_def Let_def shoot_count)
next
  case (KeyUp k)
  with assms show ?thesis by (simp add: keyup_def)
next
  case (Frame delta r)
  with assms update_count [of r "processInput (keys g) (state g)"] show ?thesis
    by (simp add: gameLoop_def Let_def)
next
  case (Start delta r)
  have "playerBullets createInitialState = []"
    by (simp add: playerBullets_def createInitialState_def)
  with Start update_count [of r "processInput (keys g) createInitialState"] show ?thesis
    by (simp add: start_def gameLoop_def Let_def)
qed

lemma run_count: "length (playerBullets (state (run evs))) \<le> 3"
proof (induction evs rule: rev_induct)
  case Nil
  show ?case by (simp add: run_Nil newGame_def playerBullets_def createInitialState_def)
next
  case (snoc e evs)
  then show ?case by (simp add: run_snoc step_count)
qed

text \<open>
  Claim C3.  The number of active player bullets never exceeds 3, after any sequence
  of events.  A \<^verbatim>\<open>shoot\<close> call made with three or more active player bullets
  returns the state as it is; \<open>n\<close> calls in a row from a state with \<open>k \<le> 3\<close> such
  bullets leave \<open>min 3 (k + n)\<close> of them; and a tick never adds a player bullet.
\<close>

theorem C3_shoot_cap:
  "length (playerBullets (state (run evs))) \<le> 3
   \<and> (3 \<le> length (playerBullets s) \<longrightarrow> shoot s = s)
   \<and> (length (playerBullets s) \<le> 3 \<longrightarrow>
        length (playerBullets ((shoot ^^ n) s)) = min 3 (length (playerBullets s) + n))
   \<and> length (playerBullets (update r s)) \<le> length (playerBullets s)"
  using run_count [of evs] shoot_full [of s] shoots_count [of s n] update_count [of r s]
  by simp

theorem C3_shoot_cap_witness:
  "length (playerBullets createInitialState) = 0
   \<and> length (playerBullets ((shoot ^^ 5) createInitialState)) = 3
   \<and> length (bullets ((shoot ^^ 5) createInitialState)) = 3
   \<and> length (playerBullets (state (run (replicate 5 (KeyDown '' ''))))) = 3
   \<and> shoot ((shoot ^^ 3) createInitialState) = (shoot ^^ 3) createInitialState"
proof -
  have a: "length (playerBullets createInitialState) = 0" by code_simp
  have b: "length (bullets ((shoot ^^ 5) createInitialState)) = 3" by code_simp
  have c: "length (playerBullets (state (run (replicate 5 (KeyDown '' ''))))) = 3" by code_simp
  have d: "length (playerBullets ((shoot ^^ 3) createInitialState)) = 3" by code_simp
  from a b c d
    C3_shoot_cap [of "[]" createInitialState 5]
    C3_shoot_cap [of "[]" "(shoot ^^ 3) createInitialState" 0]
  show ?thesis by simp
qed

section \<open>C9: start resets the game\<close>

text \<open>The fields the canonical initial state fixes, apart from the ship.\<close>

definition canonical :: "GameState \<Rightarrow> bool" where
  "canonical s =
     (invaders s = invaderGrid \<and> bullets s = [] \<and> score s = 0 \<and> lives s = 3 \<and> tick s = 0
      \<and> \<not> gameOver s \<and> \<not> won s \<and> invaderDirection s = 1)"

text \<open>The positions of a grid of 5 rows and 11 columns, row by row.\<close>

definition gridPositions :: "(rat \<times> rat) list" where
  "gridPositions =
     map (\<lambda>(row, col). (195 / 2 + 55 * of_nat col, 60 + 45 * of_nat row))
         (List.product [0..<5] [0..<11])"

lemma canonical_createInitialState: "canonical createInitialState"
  by (simp add: canonical_def createInitialState_def)

lemma canonical_processInput: "canonical s \<Longrightarrow> canonical (processInput ks s)"
  by (simp add: canonical_def processInput_def Let_def setShipX_def)

lemma start_state:
  "delta < tickInterval \<Longrightarrow>
     state (start delta r g) = processInput (keys g) createInitialState"
  by (simp add: start_def gameLoop_def Let_def)

lemma start_keys: "keys (start delta r g) = keys g"
  by (simp add: start_def gameLoop_def Let_def)

lemma invaderGrid_length: "length invaderGrid = 55"
  by code_simp

lemma invaderGrid_active: "list_all inv_active invaderGrid"
  by code_simp

lemma invaderGrid_positions: "map (\<lambda>i. (inv_x i, inv_y i)) invaderGrid = gridPositions"
  by code_simp

lemma invaderGrid_distinct: "distinct gridPositions"
  by code_simp

text \<open>
  Claim C9.  \<^verbatim>\<open>start\<close> (the page's way to initialise a game) yields the canonical
  initial state whatever the state was before: 55 invaders, all active, at the
  positions of a grid of 5 rows and 11 columns, no bullets, score 0, 3 lives, tick 0,
  neither over nor won.  Called twice in a row it yields the same state both times.
  \<^verbatim>\<open>start\<close> runs the game loop once after the reset; \<open>delta\<close> is the time between its
  two clock readings, which makes no tick while it is below \<^verbatim>\<open>tickInterval\<close>.  The
  state that \<^verbatim>\<open>createInitialState\<close> builds is canonical with no condition.
\<close>

theorem C9_start_is_idempotent:
  assumes "delta < tickInterval" and "delta' < tickInterval"
  shows "canonical (state (start delta r g))
       \<and> canonical (state (start delta' r' (start delta r g)))
       \<and> state (start delta' r' (start delta r g)) = state (start delta r g)
       \<and> canonical createInitialState
       \<and> length invaderGrid = 55
       \<and> list_all inv_active invaderGrid
       \<and> map (\<lambda>i. (inv_x i, inv_y i)) invaderGrid = gridPositions
       \<and> distinct gridPositions"
  using assms
  by (simp add: start_state start_keys canonical_processInput canonical_createInitialState
                invaderGrid_length invaderGrid_active invaderGrid_positions
                invaderGrid_distinct)


text \<open>A game in progress: one invader shot, the right arrow held down.\<close>

definition gameInProgress :: SpaceInvadersGame where
  "gameInProgress = \<lparr> state = update 0 volley, keys = {''ArrowRight''} \<rparr>"

theorem C9_start_is_idempotent_witness:
  "(0::rat) < tickInterval \<and> (16::rat) < tickInterval
   \<and> score (state gameInProgress) = 10 \<and> tick (state gameInProgress) = 24
   \<and> \<not> canonical (state gameInProgress)
   \<and> canonical (state (start 0 (1/2) gameInProgress))
   \<and> canonical (state (start 16 (1/3) (start 0 (1/2) gameInProgress)))
   \<and> state (start 16 (1/3) (start 0 (1/2) gameInProgress)) = state (start 0 (1/2) gameInProgress)
   \<and> length (invaders (state (start 0 (1/2) gameInProgress))) = 55
   \<and> list_all inv_active (invaders (state (start 0 (1/2) gameInProgress)))"
proof -
  have a: "(0::rat) < tickInterval" "(16::rat) < tickInterval" by simp_all
  have b: "score (state gameInProgress) = 10" "tick (state gameInProgress) = 24"
    by code_simp+
  then have c: "\<not> canonical (state gameInProgress)"
    by (simp add: canonical_def)
  from C9_start_is_idempotent [OF a, of "1/2" gameInProgress "1/3"] a b c
  show ?thesis by (simp add: canonical_def)
qed

section \<open>C6: the invader sweep\<close>

text \<open>
  The state in which a tick runs the sweep: the tick counter advanced, the bullets
  moved, the collisions applied.
\<close>

definition beforeSweep :: "GameState \<Rightarrow> GameState" where
  "beforeSweep s = checkCollisions (moveBullets (s\<lparr> tick := tick s + 1 \<rparr>))"

text \<open>An active invader whose tentative x lies outside \<open>[0, CANVAS_WIDTH - INVADER_WIDTH]\<close>.\<close>

definition pastWall :: "GameState \<Rightarrow> bool" where
  "pastWall s =
     list_ex (\<lambda>i. inv_active i \<and>
                (tentativeX s i < 0 \<or> tentativeX s i > CANVAS_WIDTH - INVADER_WIDTH))
             (invaders s)"

definition position :: "Invader \<Rightarrow> rat \<times> rat" where
  "position i = (inv_x i, inv_y i)"

definition descended :: "Invader \<Rightarrow> rat \<times> rat" where
  "descended i = (if inv_active i then (inv_x i, inv_y i + 25) else (inv_x i, inv_y i))"

definition sidestepped :: "rat \<Rightarrow> Invader \<Rightarrow> rat \<times> rat" where
  "sidestepped dir i = (if inv_active i then (inv_x i + dir * 15, inv_y i) else (inv_x i, inv_y i))"

text \<open>
  The x coordinates are half-integers and the direction is 1 or -1, so that a
  tentative x is never exactly on a wall.
\<close>

definition halfway :: "rat \<Rightarrow> bool" where
  "halfway x = (frac x = 1 / 2)"

definition onLattice :: "GameState \<Rightarrow> bool" where
  "onLattice s =
     ((invaderDirection s = 1 \<or> invaderDirection s = - 1)
      \<and> list_all (\<lambda>i. halfway (inv_x i)) (invaders s))"

lemma halfway_step:
  assumes "dir = 1 \<or> dir = - 1" and "halfway x"
  shows "halfway (x + dir * 15)"
proof -
  have "dir * 15 \<in> \<int>" using assms(1) by auto
  then have "frac (x + dir * 15) = frac x" by (rule frac_add_int_right)
  then show ?thesis using assms(2) by (simp only: halfway_def)
qed

lemma halfway_steps:
  assumes "halfway x"
  shows "halfway (x + 15)" and "halfway (x - 15)"
  using halfway_step [of 1 x] halfway_step [of "- 1" x] assms by simp_all

lemma halfway_not_wall:
  assumes "halfway x"
  shows "x \<noteq> 0 \<and> x \<noteq> 760"
proof -
  have "(0 :: rat) \<in> \<int>" "(760 :: rat) \<in> \<int>" by simp_all
  then have "frac (0 :: rat) = 0" "frac (760 :: rat) = 0"
    by (simp_all only: frac_eq_0_iff)
  then have "\<not> halfway 0" "\<not> halfway 760"
    by (simp_all only: halfway_def)
  with assms show ?thesis by auto
qed

lemma onLattice_shouldDescend:
  assumes "onLattice s"
  shows "shouldDescend s = pastWall s"
proof -
  have "tentativeX s i \<noteq> 0 \<and> tentativeX s i \<noteq> 760" if "i \<in> set (invaders s)" for i
  proof -
    from assms that have "halfway (inv_x i)"
      and "invaderDirection s = 1 \<or> invaderDirection s = - 1"
      by (auto simp: onLattice_def list_all_iff)
    then have "halfway (tentativeX s i)"
      unfolding tentativeX_def using halfway_step by blast
    then show ?thesis by (rule halfway_not_wall)
  qed
  then show ?thesis
    unfolding shouldDescend_def pastWall_def list_ex_iff
    by (auto simp: less_le)
qed

lemma pastWall_shouldDescend: "pastWall s \<Longrightarrow> shouldDescend s"
  by (auto simp: shouldDescend_def pastWall_def list_ex_iff)

lemma moveInvaders_positions:
  "map position (invaders (moveInvaders s)) =
     (if shouldDescend s then map descended (invaders s)
      else map (sidestepped (invaderDirection s)) (invaders s))"
  by (simp add: phase moveInvader_def position_def descended_def sidestepped_def)

lemma onLattice_frame:
  "invaders s' = invaders s \<Longrightarrow> invaderDirection s' = invaderDirection s
     \<Longrightarrow> onLattice s \<Longrightarrow> onLattice s'"
  by (simp add: onLattice_def)

lemma shootDown_x [simp]: "inv_x (shootDown bs i) = inv_x i"
  by (simp add: shootDown_def)

lemma shootDown_y [simp]: "inv_y (shootDown bs i) = inv_y i"
  by (simp add: shootDown_def)

lemma onLattice_beforeSweep: "onLattice s \<Longrightarrow> onLattice (beforeSweep s)"
  by (simp add: onLattice_def beforeSweep_def phase list_all_iff)

lemma onLattice_moveInvaders: "onLattice s \<Longrightarrow> onLattice (moveInvaders s)"
  by (auto simp: onLattice_def phase list_all_iff moveInvader_def halfway_steps)

lemma onLattice_animateInvaders: "onLattice s \<Longrightarrow> onLattice (animateInvaders s)"
  by (auto simp: onLattice_def phase animateInvaders_def list_all_iff)

lemma onLattice_update: "onLattice s \<Longrightarrow> onLattice (update r s)"
proof -
  assume a: "onLattice s"
  have tail: "onLattice (cleanUp (checkWin (enemyShoot r t)))"
             "onLattice (cleanUp (checkWin t))" if "onLattice t" for t
    using that by (simp_all add: onLattice_def phase)
  have mid: "onLattice (if tick t mod 15 = 0 then animateInvaders t else t)" if "onLattice t" for t
    using that by (simp add: onLattice_animateInvaders)
  have sweep: "onLattice (if tick t mod 25 = 0 then moveInvaders t else t)" if "onLattice t" for t
    using that by (simp add: onLattice_moveInvaders)
  from a have "onLattice (beforeSweep s)" by (rule onLattice_beforeSweep)
  then show ?thesis
    using a tail mid sweep
    by (simp add: update_def Let_def beforeSweep_def)
qed

lemma onLattice_createInitialState: "onLattice createInitialState"
  by code_simp

lemma onLattice_processInput: "onLattice s \<Longrightarrow> onLattice (processInput ks s)"
  by (simp add: onLattice_def processInput_def Let_def setShipX_def)

lemma onLattice_shoot: "onLattice s \<Longrightarrow> onLattice (shoot s)"
  by (simp add: onLattice_def shoot_def)

lemma onLattice_step: "onLattice (state g) \<Longrightarrow> onLattice (state (step g e))"
  by (cases e)
     (simp_all add: keydown_def keyup_def gameLoop_def start_def Let_def onLattice_shoot
        onLattice_processInput onLattice_update onLattice_createInitialState)

lemma onLattice_run: "onLattice (state (run evs))"
proof (induction evs rule: rev_induct)
  case Nil
  show ?case by (simp add: run_Nil newGame_def onLattice_createInitialState)
next
  case (snoc e evs)
  then show ?case by (simp add: run_snoc onLattice_step)
qed

lemma update_sweep:
  assumes "\<not> gameOver s"
  shows "map position (invaders (update r s)) =
           (if (tick s + 1) mod 25 = 0 then map position (invaders (moveInvaders (beforeSweep s)))
            else map position (invaders s))"
    and "invaderDirection (update r s) =
           (if (tick s + 1) mod 25 = 0 then invaderDirection (moveInvaders (beforeSweep s))
            else invaderDirection s)"
  using assms
  by (simp_all add: update_def Let_def phase beforeSweep_def animateInvaders_def
                    position_def o_def)


text \<open>
  Claim C6.  The invader sweep runs on every 25th tick and on no other tick.  Its
  wall test looks at the tentative x of every active invader before any invader is
  moved, and the outcome is the same for the whole grid.  If some active invader's
  tentative x lies outside \<open>[0, CANVAS_WIDTH - INVADER_WIDTH]\<close>, then no invader
  moves sideways, every active invader goes down by 25, and the one shared direction
  is negated (first conjunct: in every state).  In the states of a running game
  (after any sequence of events) the converse holds too: on a sweep tick without such
  an invader every active invader moves sideways by 15 in the current direction, none
  goes down, and the direction stays; on a tick that is no sweep tick the positions
  and the direction stay.  Inactive invaders never move.
\<close>

theorem C6_sweep_all_or_nothing:
  "(pastWall c \<longrightarrow>
      map position (invaders (moveInvaders c)) = map descended (invaders c)
      \<and> invaderDirection (moveInvaders c) = - invaderDirection c)
   \<and> (\<not> gameOver (state (run evs)) \<and> (tick (state (run evs)) + 1) mod 25 = 0
        \<and> pastWall (beforeSweep (state (run evs))) \<longrightarrow>
      map position (invaders (update r (state (run evs))))
        = map descended (invaders (beforeSweep (state (run evs))))
      \<and> invaderDirection (update r (state (run evs))) = - invaderDirection (state (run evs)))
   \<and> (\<not> gameOver (state (run evs)) \<and> (tick (state (run evs)) + 1) mod 25 = 0
        \<and> \<not> pastWall (beforeSweep (state (run evs))) \<longrightarrow>
      map position (invaders (update r (state (run evs))))
        = map (sidestepped (invaderDirection (state (run evs))))
              (invaders (beforeSweep (state (run evs))))
      \<and> invaderDirection (update r (state (run evs))) = invaderDirection (state (run evs)))
   \<and> (\<not> gameOver (state (run evs)) \<and> (tick (state (run evs)) + 1) mod 25 \<noteq> 0 \<longrightarrow>
      map position (invaders (update r (state (run evs))))
        = map position (invaders (state (run evs)))
      \<and> invaderDirection (update r (state (run evs))) = invaderDirection (state (run evs)))"
proof -
  define s where "s = state (run evs)"
  have lat: "onLattice (beforeSweep s)"
    unfolding s_def using onLattice_run by (rule onLattice_beforeSweep)
  have dir: "invaderDirection (beforeSweep s) = invaderDirection s"
    by (simp add: beforeSweep_def phase)
  have wall: "shouldDescend (beforeSweep s) = pastWall (beforeSweep s)"
    using lat by (rule onLattice_shouldDescend)
  have a: "pastWall c \<longrightarrow>
      map position (invaders (moveInvaders c)) = map descended (invaders c)
      \<and> invaderDirection (moveInvaders c) = - invaderDirection c"
    using pastWall_shouldDescend [of c]
    by (auto simp: moveInvaders_positions moveInvaders_frame(8))
  have b: "\<not> gameOver s \<and> (tick s + 1) mod 25 = 0 \<and> pastWall (beforeSweep s) \<longrightarrow>
      map position (invaders (update r s)) = map descended (invaders (beforeSweep s))
      \<and> invaderDirection (update r s) = - invaderDirection s"
    using wall dir by (simp add: update_sweep moveInvaders_positions moveInvaders_frame(8))
  have c: "\<not> gameOver s \<and> (tick s + 1) mod 25 = 0 \<and> \<not> pastWall (beforeSweep s) \<longrightarrow>
      map position (invaders (update r s))
        = map (sidestepped (invaderDirection s)) (invaders (beforeSweep s))
      \<and> invaderDirection (update r s) = invaderDirection s"
    using wall dir by (simp add: update_sweep moveInvaders_positions moveInvaders_frame(8))
  have d: "\<not> gameOver s \<and> (tick s + 1) mod 25 \<noteq> 0 \<longrightarrow>
      map position (invaders (update r s)) = map position (invaders s)
      \<and> invaderDirection (update r s) = invaderDirection s"
    by (simp add: update_sweep)
  from a b c d show ?thesis
    unfolding s_def by blast
qed


text \<open>Twenty-four ticks of an untouched game, and the grid seven sweeps to the right.\<close>

definition ticks24 :: "event list" where
  "ticks24 = replicate 24 (Frame 40 (1/2))"

definition atWall :: GameState where
  "atWall = createInitialState
     \<lparr> invaders := map (\<lambda>i. i\<lparr> inv_x := inv_x i + 105 \<rparr>) invaderGrid, tick := 200 \<rparr>"

theorem C6_sweep_all_or_nothing_witness:
  "\<not> gameOver (state (run ticks24)) \<and> (tick (state (run ticks24)) + 1) mod 25 = 0
   \<and> \<not> pastWall (beforeSweep (state (run ticks24)))
   \<and> map position (invaders (update (1/2) (state (run ticks24))))
        = map (sidestepped 1) (invaders (beforeSweep (state (run ticks24))))
   \<and> invaderDirection (update (1/2) (state (run ticks24))) = 1
   \<and> pastWall atWall
   \<and> map position (invaders (moveInvaders atWall)) = map descended (invaders atWall)
   \<and> invaderDirection (moveInvaders atWall) = - 1"
proof -
  have a: "\<not> gameOver (state (run ticks24))" by code_simp
  have b: "(tick (state (run ticks24)) + 1) mod 25 = 0" by code_simp
  have c: "\<not> pastWall (beforeSweep (state (run ticks24)))" by code_simp
  have d: "invaderDirection (state (run ticks24)) = 1" by code_simp
  have e: "pastWall atWall" by code_simp
  have f: "invaderDirection atWall = 1" by code_simp
  from a b c d e f C6_sweep_all_or_nothing [of atWall ticks24 "1/2"]
  show ?thesis by simp
qed

section \<open>C7: the enemy shooter is drawn at random\<close>

text \<open>
  The state in which a tick runs the enemy fire: after the sweep and the animation
  frame of that tick.
\<close>

definition beforeFire :: "GameState \<Rightarrow> GameState" where
  "beforeFire s =
     (let s3 = beforeSweep s;
          s4 = (if tick s3 mod 25 = 0 then moveInvaders s3 else s3)
      in if tick s4 mod 15 = 0 then animateInvaders s4 else s4)"









section \<open>The leaderboard of frontend/src/main.ts\<close>

record LeaderboardEntry =
  username :: string
  player :: string
  entry_score :: int
  timestamp :: int









text \<open>
  Modelled from the spec: the leaderboard ledger of the contract (section 4.6), whose
  code is not among the sources.  \<^verbatim>\<open>register_player\<close> is an upsert of the player's
  name; \<^verbatim>\<open>submit_score\<close> is rejected for an address that is not registered and
  appends a new entry with the current timestamp otherwise; \<^verbatim>\<open>get_leaderboard\<close>
  returns all entries in append order.
\<close>

record Ledger =
  registry :: "string \<rightharpoonup> string"
  ledger :: "LeaderboardEntry list"


definition register_player :: "string \<Rightarrow> string \<Rightarrow> Ledger \<Rightarrow> Ledger" where
  "register_player address name L = L\<lparr> registry := (registry L)(address \<mapsto> name) \<rparr>"



section \<open>C8: the leaderboard sums the scores of a user\<close>





























section \<open>C1 and C4: what the collision loops do in states no game reaches\<close>






section \<open>The invaders stay in formation\<close>

text \<open>
  Every active invader is at its place in the initial grid, moved by one offset
  \<open>(dx, dy)\<close> that all active invaders share.  An inactive invader stays where it was
  shot.
\<close>

definition gridded :: "rat \<Rightarrow> rat \<Rightarrow> Invader list \<Rightarrow> bool" where
  "gridded dx dy invs =
     list_all2 (\<lambda>g i. inv_type i = inv_type g \<and>
                  (inv_active i \<longrightarrow> inv_x i = inv_x g + dx \<and> inv_y i = inv_y g + dy))
               invaderGrid invs"











lemma gridded_strike: "gridded dx dy invs \<Longrightarrow> gridded dx dy (map (strike b) invs)"
  by (simp add: gridded_def list_all2_conv_all_nth strike_def)





section \<open>A tick, stage by stage\<close>


lemma beforeSweep_fields:
  "ship (beforeSweep s) = ship s"
  "tick (beforeSweep s) = tick s + 1"
  "won (beforeSweep s) = won s"
  "invaderDirection (beforeSweep s) = invaderDirection s"
  "invaders (beforeSweep s) = map (shootDown (map moveBullet (bullets s))) (invaders s)"
  "score (beforeSweep s) =
     score s + sum_list (map points (filter (shotDown (map moveBullet (bullets s))) (invaders s)))"
  "lives (beforeSweep s) =
     lives s - int (length (filter (hitting (ship s)) (map moveBullet (bullets s))))"
  "gameOver (beforeSweep s) =
     ((filter (hitting (ship s)) (map moveBullet (bullets s)) \<noteq> [] \<and> lives (beforeSweep s) \<le> 0)
      \<or> gameOver s)"
  by (simp_all add: beforeSweep_def phase)



lemma beforeFire_direction:
  "invaderDirection (beforeFire s) =
     (if (tick s + 1) mod 25 = 0 \<and> shouldDescend (beforeSweep s) then - invaderDirection s
      else invaderDirection s)"
  by (simp add: beforeFire_def Let_def phase beforeSweep_fields)











section \<open>C1: one invader for one bullet\<close>











section \<open>The enemy bullets keep their distance\<close>














































end
